theory Spec2Isabelle
  imports Main
begin

section \<open>The Kahn scheduler of \<^verbatim>\<open>kahn.py\<close>\<close>

text \<open>
  The class \<^verbatim>\<open>Kahn\<close> works on a numpy array \<^verbatim>\<open>x\<close> with one row per node and three
  columns: column 0 is the number of remaining constraints, column 1 the label and
  column 2 the lifecycle (\<open>-1\<close> blocked, \<open>0\<close> ready, \<open>1\<close> done). The array is mutated in
  place; the model passes it explicitly and returns it, also when an exception is
  raised, so that the contents left behind by a failing call can be read.
\<close>

subsection \<open>Python values and exceptions\<close>

datatype error = AssertionError | TypeError | IndexError | ValueError

text \<open>The value of \<^verbatim>\<open>some_list.reverse()\<close> is \<^verbatim>\<open>None\<close>; the value of a list is a list.\<close>

datatype pyval = PyNone | PyList "nat list"

text \<open>Truthiness, as \<^verbatim>\<open>not v\<close> and \<^verbatim>\<open>if v\<close> read it.\<close>

fun truthy :: "pyval \<Rightarrow> bool" where
  "truthy PyNone = False"
| "truthy (PyList xs) = (xs \<noteq> [])"

text \<open>\<^verbatim>\<open>for ind in v\<close>: iterating \<^verbatim>\<open>None\<close> raises TypeError.\<close>

fun iter_py :: "pyval \<Rightarrow> error + nat list" where
  "iter_py PyNone = Inl TypeError"
| "iter_py (PyList xs) = Inr xs"

text \<open>
  \<^verbatim>\<open>xs.reverse()\<close> reverses the list in place and returns \<^verbatim>\<open>None\<close>: the pair is the
  list after the call and the value of the call expression.
\<close>

definition list_reverse :: "nat list \<Rightarrow> nat list \<times> pyval" where
  "list_reverse xs = (rev xs, PyNone)"

subsection \<open>The graph and the state array\<close>

text \<open>
  The NetworkX graph is read through three queries: \<^verbatim>\<open>number_of_nodes()\<close>, the
  adjacency matrix and \<^verbatim>\<open>graph.nodes[id]['priority']\<close>. Edges carry no weight, so
  the matrix entry of an edge is 1 and every other entry is 0.
\<close>

record graph =
  nb_nodes :: nat
  depends_on :: "nat \<Rightarrow> nat \<Rightarrow> bool"
  priority :: "nat \<Rightarrow> int"

type_synonym matrix = "int list list"

definition to_numpy_matrix :: "graph \<Rightarrow> matrix" where
  "to_numpy_matrix g =
     map (\<lambda>i. map (\<lambda>j. if depends_on g i j then 1 else 0) [0..<nb_nodes g]) [0..<nb_nodes g]"

record entry =
  remaining :: int
  label :: int
  lifecycle :: int

type_synonym state = "entry list"

text \<open>\<^verbatim>\<open>x[:,1]\<close>\<close>

definition decode_last_state :: "state \<Rightarrow> int list" where
  "decode_last_state x = map label x"

subsection \<open>numpy reductions\<close>

text \<open>\<^verbatim>\<open>np.amax\<close> and \<^verbatim>\<open>np.amin\<close> raise ValueError on an empty array.\<close>

definition amax :: "int list \<Rightarrow> error + int" where
  "amax vs = (case vs of [] \<Rightarrow> Inl ValueError | v # ws \<Rightarrow> Inr (fold max ws v))"

definition amin :: "int list \<Rightarrow> error + int" where
  "amin vs = (case vs of [] \<Rightarrow> Inl ValueError | v # ws \<Rightarrow> Inr (fold min ws v))"

text \<open>
  The array \<^verbatim>\<open>np.where(x[:,2] == 0, x[:,1], float('inf'))\<close> holds a label or
  infinity.
\<close>

datatype ext = Fin int | PInf

fun ext_less :: "ext \<Rightarrow> ext \<Rightarrow> bool" where
  "ext_less (Fin a) (Fin b) = (a < b)"
| "ext_less (Fin a) PInf = True"
| "ext_less PInf v = False"

text \<open>
  \<^verbatim>\<open>np.argmin\<close> returns the first index of the minimum: the scan keeps the best
  index so far and replaces it only by a strictly smaller value.
\<close>

fun argmin_aux :: "nat \<Rightarrow> ext \<Rightarrow> nat \<Rightarrow> ext list \<Rightarrow> nat" where
  "argmin_aux best bv i [] = best"
| "argmin_aux best bv i (v # vs) =
     (if ext_less v bv then argmin_aux i v (Suc i) vs else argmin_aux best bv (Suc i) vs)"

definition argmin :: "ext list \<Rightarrow> error + nat" where
  "argmin vs = (case vs of [] \<Rightarrow> Inl ValueError | v # ws \<Rightarrow> Inr (argmin_aux 0 v 1 ws))"

subsection \<open>\<^verbatim>\<open>initialize_x\<close>\<close>

text \<open>\<^verbatim>\<open>get_degree(E, ind) = np.sum(E[:,ind])\<close>\<close>

definition get_degree :: "matrix \<Rightarrow> nat \<Rightarrow> int" where
  "get_degree E ind = sum_list (map (\<lambda>row. row ! ind) E)"

text \<open>The loop \<^verbatim>\<open>for i in free_nodes\<close> with its counter \<^verbatim>\<open>label\<close>.\<close>

fun assign_labels :: "nat list \<Rightarrow> state \<Rightarrow> int \<Rightarrow> state" where
  "assign_labels [] x lbl = x"
| "assign_labels (i # is) x lbl =
     assign_labels is (x[i := (x ! i)\<lparr>label := lbl, lifecycle := 0\<rparr>]) (lbl + 1)"

text \<open>
  With no node the array built from the empty list has one dimension and
  \<^verbatim>\<open>x[:,0]\<close> raises IndexError.
\<close>

definition initialize_x :: "graph \<Rightarrow> error + state" where
  "initialize_x g =
     (let E = to_numpy_matrix g;
          nb = nb_nodes g;
          x = map (\<lambda>i. \<lparr>remaining = get_degree E i, label = - 1, lifecycle = - 1\<rparr>) [0..<nb];
          lbl = 1
      in if nb = 0 then Inl IndexError
         else
           let free_idx = filter (\<lambda>i. remaining (x ! i) = 0) [0..<nb];
               free_nodes = sort_key (priority g) free_idx;
               (free_nodes', r) = list_reverse free_nodes
           in if \<not> truthy r then Inr x
              else Inr (assign_labels free_nodes' x lbl))"

subsection \<open>\<^verbatim>\<open>iter_Kahn\<close>\<close>

text \<open>
  The body of the loop over the neighbours. The indices come from the columns of
  \<^verbatim>\<open>E\<close>; one beyond the rows of \<^verbatim>\<open>x\<close> raises IndexError.
\<close>

fun propagate :: "nat list \<Rightarrow> state \<Rightarrow> int \<Rightarrow> (error + unit) \<times> state" where
  "propagate [] x next_label = (Inr (), x)"
| "propagate (ind # inds) x next_label =
     (if \<not> ind < length x then (Inl IndexError, x)
      else
        let x1 = x[ind := (x ! ind)\<lparr>remaining := remaining (x ! ind) - 1\<rparr>]
        in if remaining (x1 ! ind) = 0
           then propagate inds (x1[ind := (x1 ! ind)\<lparr>label := next_label, lifecycle := 0\<rparr>])
                  (next_label + 1)
           else propagate inds x1 next_label)"

text \<open>\<^verbatim>\<open>np.where(x[:,2] == 0, x[:,1], float('inf'))\<close>\<close>

definition ready_labels :: "state \<Rightarrow> ext list" where
  "ready_labels x = map (\<lambda>e. if lifecycle e = 0 then Fin (label e) else PInf) x"

text \<open>\<^verbatim>\<open>np.sum(np.where(x[:,2] == 0, 1, 0))\<close>\<close>

definition count_ready :: "state \<Rightarrow> int" where
  "count_ready x = sum_list (map (\<lambda>e. if lifecycle e = 0 then 1 else 0) x)"

text \<open>
  The result is the outcome of the call (an exception, or a normal return of \<^verbatim>\<open>x\<close>)
  together with the contents of the array \<^verbatim>\<open>x\<close> when the call ends.
\<close>

definition iter_Kahn :: "graph \<Rightarrow> state \<Rightarrow> matrix \<Rightarrow> (error + unit) \<times> state" where
  "iter_Kahn g x E =
     (case amax (map label x) of
        Inl e \<Rightarrow> (Inl e, x)
      | Inr m \<Rightarrow>
          (let next_label = m + 1
           in if \<not> next_label \<ge> 1 then (Inl AssertionError, x)
              else
                (let x1 = (if count_ready x = 0 then map (\<lambda>e. e\<lparr>lifecycle := 1\<rparr>) x else x)
                 in (case argmin (ready_labels x1) of
                       Inl e \<Rightarrow> (Inl e, x1)
                     | Inr node_to_free \<Rightarrow>
                         (let x2 = x1[node_to_free := (x1 ! node_to_free)\<lparr>lifecycle := 1\<rparr>]
                          in if \<not> node_to_free < length E then (Inl IndexError, x2)
                             else
                               (let row = E ! node_to_free;
                                    neigh = filter (\<lambda>j. row ! j = 1) [0..<length row];
                                    neigh = sort_key (priority g) neigh;
                                    (neigh', r) = list_reverse neigh
                                in (case iter_py r of
                                      Inl e \<Rightarrow> (Inl e, x2)
                                    | Inr inds \<Rightarrow> propagate inds x2 next_label)))))))"

subsection \<open>\<^verbatim>\<open>run\<close>\<close>

text \<open>
  The \<^verbatim>\<open>while\<close> loop of \<^verbatim>\<open>run\<close>. Nothing in the loop bounds the number of
  iterations, so the result is optional: \<open>None\<close> is a loop that never ends. A
  snapshot \<^verbatim>\<open>x.copy()\<close> is the value of the array at that moment.
\<close>

partial_function (option) run_loop ::
    "graph \<Rightarrow> matrix \<Rightarrow> state \<Rightarrow> state list \<Rightarrow> (error + state list \<times> state) option" where
  "run_loop g E x history =
     (case amin (map lifecycle x) of
        Inl e \<Rightarrow> Some (Inl e)
      | Inr m \<Rightarrow>
          if m < 1 then
            (case iter_Kahn g x E of
               (Inl e, x') \<Rightarrow> Some (Inl e)
             | (Inr u, x') \<Rightarrow> run_loop g E x' (history @ [x']))
          else Some (Inr (history, x)))"

declare run_loop.simps [code]

definition run :: "graph \<Rightarrow> (error + state list \<times> int list) option" where
  "run g =
     (let E = to_numpy_matrix g
      in case initialize_x g of
           Inl e \<Rightarrow> Some (Inl e)
         | Inr x \<Rightarrow>
             (case run_loop g E x [x] of
                None \<Rightarrow> None
              | Some (Inl e) \<Rightarrow> Some (Inl e)
              | Some (Inr (history, x')) \<Rightarrow> Some (Inr (history, decode_last_state x'))))"

subsection \<open>The graphs and states of the scenarios\<close>

text \<open>The chain \<open>0 \<rightarrow> 1 \<rightarrow> 2\<close>, every priority 0.\<close>

definition chain3 :: graph where
  "chain3 = \<lparr>nb_nodes = 3,
     depends_on = (\<lambda>i j. (i = 0 \<and> j = 1) \<or> (i = 1 \<and> j = 2)),
     priority = (\<lambda>i. 0)\<rparr>"

text \<open>The diamond \<open>0 \<rightarrow> 1\<close>, \<open>0 \<rightarrow> 2\<close>, \<open>1 \<rightarrow> 3\<close>, \<open>2 \<rightarrow> 3\<close>; node 1 has priority 0, node 2 priority 1.\<close>

definition diamond :: graph where
  "diamond = \<lparr>nb_nodes = 4,
     depends_on = (\<lambda>i j. (i = 0 \<and> j = 1) \<or> (i = 0 \<and> j = 2) \<or> (i = 1 \<and> j = 3) \<or> (i = 2 \<and> j = 3)),
     priority = (\<lambda>i. if i = 2 then 1 else 0)\<rparr>"

text \<open>The cycle \<open>0 \<rightarrow> 1 \<rightarrow> 0\<close>.\<close>

definition cycle2 :: graph where
  "cycle2 = \<lparr>nb_nodes = 2,
     depends_on = (\<lambda>i j. (i = 0 \<and> j = 1) \<or> (i = 1 \<and> j = 0)),
     priority = (\<lambda>i. 0)\<rparr>"

text \<open>One node, no edge.\<close>

definition single_node :: graph where
  "single_node = \<lparr>nb_nodes = 1, depends_on = (\<lambda>i j. False), priority = (\<lambda>i. 0)\<rparr>"

text \<open>
  The state of the diamond in which node 0 is ready with label 1 and the other nodes
  are blocked, and the state of the chain in which node 0 is ready with label 1.
\<close>

definition diamond_ready :: state where
  "diamond_ready =
     [\<lparr>remaining = 0, label = 1, lifecycle = 0\<rparr>,
      \<lparr>remaining = 1, label = - 1, lifecycle = - 1\<rparr>,
      \<lparr>remaining = 1, label = - 1, lifecycle = - 1\<rparr>,
      \<lparr>remaining = 2, label = - 1, lifecycle = - 1\<rparr>]"

definition chain_ready :: state where
  "chain_ready =
     [\<lparr>remaining = 0, label = 1, lifecycle = 0\<rparr>,
      \<lparr>remaining = 1, label = - 1, lifecycle = - 1\<rparr>,
      \<lparr>remaining = 1, label = - 1, lifecycle = - 1\<rparr>]"

text \<open>Two ready nodes with labels 3 and 2 and a blocked one; the single node, done.\<close>

definition two_ready :: state where
  "two_ready =
     [\<lparr>remaining = 0, label = 3, lifecycle = 0\<rparr>,
      \<lparr>remaining = 0, label = 2, lifecycle = 0\<rparr>,
      \<lparr>remaining = 1, label = - 1, lifecycle = - 1\<rparr>]"

definition single_done :: state where
  "single_done = [\<lparr>remaining = 0, label = 1, lifecycle = 1\<rparr>]"

text \<open>Node 0 done with label 1, nodes 1 and 2 blocked on each other.\<close>

definition stuck3 :: state where
  "stuck3 =
     [\<lparr>remaining = 0, label = 1, lifecycle = 1\<rparr>,
      \<lparr>remaining = 1, label = - 1, lifecycle = - 1\<rparr>,
      \<lparr>remaining = 1, label = - 1, lifecycle = - 1\<rparr>]"

text \<open>The array that \<^verbatim>\<open>initialize_x\<close> builds before it looks for the free nodes.\<close>

definition unlabelled :: "graph \<Rightarrow> state" where
  "unlabelled g =
     map (\<lambda>i. \<lparr>remaining = get_degree (to_numpy_matrix g) i, label = - 1, lifecycle = - 1\<rparr>)
       [0..<nb_nodes g]"

text \<open>The array with every lifecycle forced to done, \<^verbatim>\<open>x[:,2] = 1\<close>.\<close>

definition force_done :: "state \<Rightarrow> state" where
  "force_done x = map (\<lambda>e. e\<lparr>lifecycle := 1\<rparr>) x"

text \<open>
  The array on which \<^verbatim>\<open>iter_Kahn\<close> selects: forced when
  \<^verbatim>\<open>np.sum(np.where(x[:,2] == 0, 1, 0)) == 0\<close>, as it is otherwise.
\<close>

definition forced :: "state \<Rightarrow> state" where
  "forced x = (if count_ready x = 0 then force_done x else x)"

text \<open>Node 0 alone and the cycle \<open>1 \<rightarrow> 2 \<rightarrow> 1\<close>.\<close>

definition tail_cycle :: graph where
  "tail_cycle = \<lparr>nb_nodes = 3,
     depends_on = (\<lambda>i j. (i = 1 \<and> j = 2) \<or> (i = 2 \<and> j = 1)),
     priority = (\<lambda>i. 0)\<rparr>"


section \<open>Facts about the reductions\<close>

lemma ext_less_irrefl: "\<not> ext_less a a"
  by (cases a) simp_all

lemma ext_less_trans: "ext_less a b \<Longrightarrow> ext_less b c \<Longrightarrow> ext_less a c"
  by (cases a; cases b; cases c) simp_all

lemma ext_less_cotrans: "ext_less a b \<Longrightarrow> ext_less a c \<or> ext_less c b"
  by (cases a; cases b; cases c) auto

lemma argmin_aux_spec:
  "(argmin_aux best bv i vs = best \<and> (\<forall>j<length vs. \<not> ext_less (vs ! j) bv)) \<or>
   (\<exists>k<length vs. argmin_aux best bv i vs = i + k \<and> ext_less (vs ! k) bv \<and>
      (\<forall>j<length vs. \<not> ext_less (vs ! j) (vs ! k)) \<and> (\<forall>j<k. ext_less (vs ! k) (vs ! j)))"
proof (induction vs arbitrary: best bv i)
  case Nil
  then show ?case by simp
next
  case (Cons v vs)
  show ?case
  proof (cases "ext_less v bv")
    case True
    from Cons.IH[of i v "Suc i"] show ?thesis
    proof (elim disjE conjE exE)
      assume a: "argmin_aux i v (Suc i) vs = i" "\<forall>j<length vs. \<not> ext_less (vs ! j) v"
      have "\<forall>j<length (v # vs). \<not> ext_less ((v # vs) ! j) ((v # vs) ! 0)"
        using a(2) ext_less_irrefl by (auto simp: nth_Cons split: nat.splits)
      then show ?thesis using True a(1) by (intro disjI2 exI[of _ 0]) simp
    next
      fix k
      assume a: "k < length vs" "argmin_aux i v (Suc i) vs = Suc i + k" "ext_less (vs ! k) v"
        "\<forall>j<length vs. \<not> ext_less (vs ! j) (vs ! k)" "\<forall>j<k. ext_less (vs ! k) (vs ! j)"
      have 1: "ext_less (vs ! k) bv" using a(3) True ext_less_trans by blast
      have 2: "\<not> ext_less v (vs ! k)" using a(3) ext_less_trans ext_less_irrefl by blast
      have 3: "\<forall>j<length (v # vs). \<not> ext_less ((v # vs) ! j) ((v # vs) ! Suc k)"
        using a(4) 2 by (auto simp: nth_Cons split: nat.splits)
      have 4: "\<forall>j<Suc k. ext_less ((v # vs) ! Suc k) ((v # vs) ! j)"
        using a(3,5) by (auto simp: nth_Cons split: nat.splits)
      show ?thesis using True a(1,2) 1 3 4 by (intro disjI2 exI[of _ "Suc k"]) simp
    qed
  next
    case False
    from Cons.IH[of best bv "Suc i"] show ?thesis
    proof (elim disjE conjE exE)
      assume a: "argmin_aux best bv (Suc i) vs = best" "\<forall>j<length vs. \<not> ext_less (vs ! j) bv"
      have "\<forall>j<length (v # vs). \<not> ext_less ((v # vs) ! j) bv"
        using a(2) False by (auto simp: nth_Cons split: nat.splits)
      then show ?thesis using False a(1) by (intro disjI1) simp
    next
      fix k
      assume a: "k < length vs" "argmin_aux best bv (Suc i) vs = Suc i + k" "ext_less (vs ! k) bv"
        "\<forall>j<length vs. \<not> ext_less (vs ! j) (vs ! k)" "\<forall>j<k. ext_less (vs ! k) (vs ! j)"
      have 1: "ext_less (vs ! k) v" using ext_less_cotrans[OF a(3), of v] False by blast
      have 2: "\<not> ext_less v (vs ! k)" using 1 ext_less_trans ext_less_irrefl by blast
      have 3: "\<forall>j<length (v # vs). \<not> ext_less ((v # vs) ! j) ((v # vs) ! Suc k)"
        using a(4) 2 by (auto simp: nth_Cons split: nat.splits)
      have 4: "\<forall>j<Suc k. ext_less ((v # vs) ! Suc k) ((v # vs) ! j)"
        using 1 a(5) by (auto simp: nth_Cons split: nat.splits)
      show ?thesis using False a(1,2,3) 3 4 by (intro disjI2 exI[of _ "Suc k"]) simp
    qed
  qed
qed

lemma argmin_spec:
  assumes "vs \<noteq> []"
  shows "\<exists>k<length vs. argmin vs = Inr k \<and>
           (\<forall>j<length vs. \<not> ext_less (vs ! j) (vs ! k)) \<and> (\<forall>j<k. ext_less (vs ! k) (vs ! j))"
proof -
  obtain v ws where vs: "vs = v # ws" using assms by (cases vs) auto
  from argmin_aux_spec[of 0 v 1 ws] show ?thesis
  proof (elim disjE conjE exE)
    assume a: "argmin_aux 0 v 1 ws = 0" "\<forall>j<length ws. \<not> ext_less (ws ! j) v"
    have "\<forall>j<length vs. \<not> ext_less (vs ! j) (vs ! 0)"
      using a(2) ext_less_irrefl by (auto simp: vs nth_Cons split: nat.splits)
    then show ?thesis using a(1) by (intro exI[of _ 0]) (simp add: vs argmin_def)
  next
    fix k
    assume a: "k < length ws" "argmin_aux 0 v 1 ws = 1 + k" "ext_less (ws ! k) v"
      "\<forall>j<length ws. \<not> ext_less (ws ! j) (ws ! k)" "\<forall>j<k. ext_less (ws ! k) (ws ! j)"
    have 2: "\<not> ext_less v (ws ! k)" using a(3) ext_less_trans ext_less_irrefl by blast
    have 3: "\<forall>j<length vs. \<not> ext_less (vs ! j) (vs ! Suc k)"
      using a(4) 2 by (auto simp: vs nth_Cons split: nat.splits)
    have 4: "\<forall>j<Suc k. ext_less (vs ! Suc k) (vs ! j)"
      using a(3,5) by (auto simp: vs nth_Cons split: nat.splits)
    show ?thesis using a(1,2) 3 4 by (intro exI[of _ "Suc k"]) (simp add: vs argmin_def)
  qed
qed

lemma amax_Max: "vs \<noteq> [] \<Longrightarrow> amax vs = Inr (Max (set vs))"
proof (cases vs)
  case (Cons a list)
  then show ?thesis using Max.set_eq_fold[of a list] by (simp add: amax_def)
qed simp

lemma amin_Min: "vs \<noteq> [] \<Longrightarrow> amin vs = Inr (Min (set vs))"
proof (cases vs)
  case (Cons a list)
  then show ?thesis using Min.set_eq_fold[of a list] by (simp add: amin_def)
qed simp

lemma amax_labels_neg:
  assumes "x \<noteq> []" "\<forall>e \<in> set x. label e < 0"
  shows "\<exists>m. amax (map label x) = Inr m \<and> m < 0"
proof -
  have "Max (set (map label x)) < 0" using assms by auto
  moreover have "amax (map label x) = Inr (Max (set (map label x)))"
    using assms(1) by (intro amax_Max) simp
  ultimately show ?thesis by blast
qed

lemma amax_labels_nonneg:
  assumes "\<exists>e \<in> set x. 0 \<le> label e"
  shows "\<exists>m. amax (map label x) = Inr m \<and> 0 \<le> m"
proof -
  obtain e where e: "e \<in> set x" "0 \<le> label e" using assms by blast
  have "label e \<le> Max (set (map label x))" using e(1) by (intro Max_ge) auto
  then have "0 \<le> Max (set (map label x))" using e(2) by linarith
  moreover have "amax (map label x) = Inr (Max (set (map label x)))"
    using e(1) by (intro amax_Max) auto
  ultimately show ?thesis by blast
qed

lemma count_ready_Cons:
  "count_ready (a # x) = (if lifecycle a = 0 then 1 else 0) + count_ready x"
  by (simp add: count_ready_def)

lemma count_ready_nonneg: "0 \<le> count_ready x"
  by (induction x) (simp_all add: count_ready_Cons, simp add: count_ready_def)

lemma count_ready_0: "count_ready x = 0 \<longleftrightarrow> (\<forall>e \<in> set x. lifecycle e \<noteq> 0)"
proof (induction x)
  case Nil
  then show ?case by (simp add: count_ready_def)
next
  case (Cons a x)
  have "0 \<le> count_ready x" by (rule count_ready_nonneg)
  then show ?case using Cons.IH by (cases "lifecycle a = 0") (simp_all add: count_ready_Cons)
qed

lemma initialize_x_early_return:
  "0 < nb_nodes g \<Longrightarrow> initialize_x g = Inr (unlabelled g)"
  by (simp add: initialize_x_def unlabelled_def list_reverse_def Let_def)

lemma iter_Kahn_assert:
  assumes "x \<noteq> []" "\<forall>e \<in> set x. label e < 0"
  shows "iter_Kahn g x E = (Inl AssertionError, x)"
proof -
  obtain m where "amax (map label x) = Inr m" "m < 0"
    using amax_labels_neg[OF assms] by blast
  then show ?thesis by (simp add: iter_Kahn_def)
qed

lemma run_loop_assert:
  assumes "x \<noteq> []" "\<forall>e \<in> set x. label e < 0" "\<exists>e \<in> set x. lifecycle e < 1"
  shows "run_loop g E x h = Some (Inl AssertionError)"
proof -
  have "Min (set (map lifecycle x)) < 1" using assms by (auto simp: Min_less_iff)
  moreover have "amin (map lifecycle x) = Inr (Min (set (map lifecycle x)))"
    using assms(1) by (intro amin_Min) simp
  ultimately show ?thesis
    by (subst run_loop.simps) (simp add: iter_Kahn_assert[OF assms(1,2)])
qed

lemma run_raises:
  assumes "0 < nb_nodes g"
  shows "run g = Some (Inl AssertionError)"
proof -
  let ?x = "unlabelled g"
  have ne: "?x \<noteq> []" using assms by (simp add: unlabelled_def)
  have l: "\<forall>e \<in> set ?x. label e < 0" by (simp add: unlabelled_def)
  have "lifecycle (?x ! 0) < 1" using assms by (simp add: unlabelled_def)
  then have c: "\<exists>e \<in> set ?x. lifecycle e < 1" using ne by (metis nth_mem length_greater_0_conv)
  show ?thesis using assms
    by (simp add: run_def initialize_x_early_return run_loop_assert[OF ne l c])
qed

lemma iter_Kahn_pass:
  assumes "amax (map label x) = Inr m" "0 \<le> m" "argmin (ready_labels (forced x)) = Inr k"
  shows "iter_Kahn g x E =
           (if k < length E then Inl TypeError else Inl IndexError,
            (forced x)[k := (forced x ! k)\<lparr>lifecycle := 1\<rparr>])"
proof (cases "count_ready x = 0")
  case True
  then have "argmin (ready_labels (map (\<lambda>e. e\<lparr>lifecycle := 1\<rparr>) x)) = Inr k"
    using assms(3) by (simp add: forced_def force_done_def)
  then show ?thesis using assms(1,2) True
    by (simp add: iter_Kahn_def Let_def list_reverse_def forced_def force_done_def)
next
  case False
  then have "argmin (ready_labels x) = Inr k"
    using assms(3) by (simp add: forced_def)
  then show ?thesis using assms(1,2) False
    by (simp add: iter_Kahn_def Let_def list_reverse_def forced_def)
qed

lemma length_forced: "length (forced x) = length x"
  by (simp add: forced_def force_done_def)

lemma selected_ready:
  assumes "i < length x" "lifecycle (x ! i) = 0" "k < length x"
    and "\<forall>j<length (ready_labels x). \<not> ext_less (ready_labels x ! j) (ready_labels x ! k)"
  shows "lifecycle (x ! k) = 0"
proof (rule ccontr)
  assume "lifecycle (x ! k) \<noteq> 0"
  then have "ext_less (ready_labels x ! i) (ready_labels x ! k)"
    using assms(1,2,3) by (simp add: ready_labels_def)
  then show False using assms(1,4) by (simp add: ready_labels_def)
qed

lemma unlabelled_nonempty: "0 < nb_nodes g \<Longrightarrow> unlabelled g \<noteq> []"
  by (simp add: unlabelled_def)

lemma unlabelled_entries: "\<forall>e \<in> set (unlabelled g). label e = - 1 \<and> lifecycle e = - 1"
  by (simp add: unlabelled_def)

lemma force_done_idem: "(force_done x)[k := (force_done x ! k)\<lparr>lifecycle := 1\<rparr>] = force_done x"
proof (cases "k < length x")
  case True
  then have "(force_done x ! k)\<lparr>lifecycle := 1\<rparr> = force_done x ! k"
    by (simp add: force_done_def)
  then show ?thesis by simp
next
  case False
  then have "length (force_done x) \<le> k" by (simp add: force_done_def)
  then show ?thesis by (rule list_update_beyond)
qed

lemma force_done_fixed: "(\<forall>e \<in> set x. lifecycle e = 1) \<Longrightarrow> force_done x = x"
  by (simp add: force_done_def map_idI)

lemma force_done_lifecycle: "e \<in> set (force_done x) \<Longrightarrow> lifecycle e = 1"
  by (auto simp: force_done_def)

section \<open>The initializer and the driver\<close>

text \<open>
  Claim C3. On every graph with at least one node \<^verbatim>\<open>initialize_x\<close> returns at the
  branch \<^verbatim>\<open>if not free_nodes.reverse()\<close>, so every label and every lifecycle is
  \<open>-1\<close>; the first call of \<^verbatim>\<open>iter_Kahn\<close> on that array fails its assertion and leaves
  the array as it was, and \<^verbatim>\<open>run\<close> raises AssertionError.
\<close>

theorem run_raises_on_first_iteration:
  assumes "1 \<le> nb_nodes g"
  shows "initialize_x g = Inr (unlabelled g) \<and>
         (\<forall>e \<in> set (unlabelled g). label e = - 1 \<and> lifecycle e = - 1) \<and>
         iter_Kahn g (unlabelled g) (to_numpy_matrix g) = (Inl AssertionError, unlabelled g) \<and>
         run g = Some (Inl AssertionError)"
proof -
  have n: "0 < nb_nodes g" using assms by simp
  have l: "\<forall>e \<in> set (unlabelled g). label e < 0" using unlabelled_entries by simp
  show ?thesis
    using initialize_x_early_return[OF n] unlabelled_entries
      iter_Kahn_assert[OF unlabelled_nonempty[OF n] l] run_raises[OF n]
    by blast
qed

text \<open>
  Claim C3 on the diamond, which has four nodes.
\<close>

theorem run_raises_on_first_iteration_witness: "run diamond = Some (Inl AssertionError)"
proof -
  have "1 \<le> nb_nodes diamond" by (simp add: diamond_def)
  from run_raises_on_first_iteration[OF this] show ?thesis by blast
qed

text \<open>
  Claim C1, on the chain \<open>0 \<rightarrow> 1 \<rightarrow> 2\<close>. The claim is that a run that completes returns
  labels that are a permutation of \<open>1..node_count\<close> and increase along every edge; the
  chain is acyclic and its labels should be \<open>[1, 2, 3]\<close>. The run of the code raises
  AssertionError and returns no labels.
\<close>

theorem run_chain3_raises: "run chain3 = Some (Inl AssertionError)"
  by code_simp

text \<open>
  Claim C2, on the diamond. The claim is that the nodes without incoming edge get the
  labels \<open>1..|F|\<close> and the lifecycle ready; node 0 of the diamond is such a node. The
  array that \<^verbatim>\<open>initialize_x\<close> returns has the in-degrees in column 0, and label \<open>-1\<close>
  and lifecycle \<open>-1\<close> in every row, that of node 0 too.
\<close>

theorem initialize_x_diamond_unlabelled: "initialize_x diamond = Inr
     [\<lparr>remaining = 0, label = - 1, lifecycle = - 1\<rparr>,
      \<lparr>remaining = 1, label = - 1, lifecycle = - 1\<rparr>,
      \<lparr>remaining = 1, label = - 1, lifecycle = - 1\<rparr>,
      \<lparr>remaining = 2, label = - 1, lifecycle = - 1\<rparr>]"
  by code_simp

text \<open>
  Claim C8, on the graph of one node. The claim is that \<^verbatim>\<open>run\<close> returns a history of
  \<open>1 + steps\<close> snapshots, two for this graph. The run of the code raises AssertionError
  and returns no history.
\<close>

theorem run_single_node_raises: "run single_node = Some (Inl AssertionError)"
  by code_simp


section \<open>One step\<close>

text \<open>
  Claim C4. When some entry is ready and the ready entries carry labels from 1 on,
  \<^verbatim>\<open>iter_Kahn\<close> selects a ready entry \<open>k\<close> whose label is the smallest among the ready
  entries, the first such entry in the order of the node ids, and the array it leaves
  is the given one with the lifecycle of \<open>k\<close> set to done and nothing else changed. (The
  call itself ends in the exception of claim C10.)
\<close>

theorem iter_Kahn_finalizes_min_label_ready:
  assumes ready: "\<exists>i<length x. lifecycle (x ! i) = 0"
    and labelled: "\<forall>i<length x. lifecycle (x ! i) = 0 \<longrightarrow> 1 \<le> label (x ! i)"
  shows "\<exists>k<length x. lifecycle (x ! k) = 0 \<and>
           (\<forall>i<length x. lifecycle (x ! i) = 0 \<longrightarrow> label (x ! k) \<le> label (x ! i)) \<and>
           (\<forall>i<k. lifecycle (x ! i) = 0 \<longrightarrow> label (x ! k) < label (x ! i)) \<and>
           snd (iter_Kahn g x E) = x[k := (x ! k)\<lparr>lifecycle := 1\<rparr>]"
proof -
  obtain i where i: "i < length x" "lifecycle (x ! i) = 0" using ready by blast
  then have "\<exists>e \<in> set x. 0 \<le> label e" using labelled by (force simp: in_set_conv_nth)
  then obtain m where m: "amax (map label x) = Inr m" "0 \<le> m"
    using amax_labels_nonneg by blast
  have "count_ready x \<noteq> 0" using i by (metis count_ready_0 nth_mem)
  then have f: "forced x = x" by (simp add: forced_def)
  have "ready_labels x \<noteq> []" using i by (auto simp: ready_labels_def)
  from argmin_spec[OF this] obtain k where k: "k < length x" "argmin (ready_labels x) = Inr k"
    "\<forall>j<length (ready_labels x). \<not> ext_less (ready_labels x ! j) (ready_labels x ! k)"
    "\<forall>j<k. ext_less (ready_labels x ! k) (ready_labels x ! j)"
    by (auto simp: ready_labels_def)
  have rk: "lifecycle (x ! k) = 0" using selected_ready[OF i k(1) k(3)] .
  have le: "\<forall>j<length x. lifecycle (x ! j) = 0 \<longrightarrow> label (x ! k) \<le> label (x ! j)"
    using k(1,3) rk by (fastforce simp: ready_labels_def)
  have lt: "\<forall>j<k. lifecycle (x ! j) = 0 \<longrightarrow> label (x ! k) < label (x ! j)"
    using k(1,4) rk by (fastforce simp: ready_labels_def)
  have "snd (iter_Kahn g x E) = x[k := (x ! k)\<lparr>lifecycle := 1\<rparr>]"
    using iter_Kahn_pass[OF m, of k g E] k(2) f by simp
  then show ?thesis using k(1) rk le lt by blast
qed

text \<open>
  Claim C4 on an array with two ready entries, labels 3 and 2: node 1 is finalized.
\<close>

theorem iter_Kahn_finalizes_min_label_ready_witness:
  "snd (iter_Kahn chain3 two_ready (to_numpy_matrix chain3)) =
     two_ready[1 := (two_ready ! 1)\<lparr>lifecycle := 1\<rparr>]"
proof -
  have len: "length two_ready = 3" by (simp add: two_ready_def)
  have r: "\<exists>i<length two_ready. lifecycle (two_ready ! i) = 0"
    by (intro exI[of _ 0]) (simp add: two_ready_def)
  have l: "\<forall>i<length two_ready. lifecycle (two_ready ! i) = 0 \<longrightarrow> 1 \<le> label (two_ready ! i)"
  proof (intro allI impI)
    fix i assume a: "i < length two_ready" and b: "lifecycle (two_ready ! i) = 0"
    have "i = 0 \<or> i = 1 \<or> i = 2" using a len by linarith
    then show "1 \<le> label (two_ready ! i)" using b by (auto simp: two_ready_def)
  qed
  from iter_Kahn_finalizes_min_label_ready[OF r l, of chain3 "to_numpy_matrix chain3"]
  obtain k where k: "k < length two_ready" "lifecycle (two_ready ! k) = 0"
      "\<forall>i<length two_ready. lifecycle (two_ready ! i) = 0 \<longrightarrow> label (two_ready ! k) \<le> label (two_ready ! i)"
      "snd (iter_Kahn chain3 two_ready (to_numpy_matrix chain3)) = two_ready[k := (two_ready ! k)\<lparr>lifecycle := 1\<rparr>]"
    by blast
  have c: "k = 0 \<or> k = 1 \<or> k = 2" using k(1) len by linarith
  have h: "1 < length two_ready" "lifecycle (two_ready ! 1) = 0"
    by (simp_all add: two_ready_def)
  have "label (two_ready ! k) \<le> label (two_ready ! 1)"
    using k(3) h by blast
  then have "k = 1" using c k(2) by (auto simp: two_ready_def)
  then show ?thesis using k(4) by simp
qed

text \<open>
  Claim C5, on the diamond with node 0 ready. The claim is that the dependents of the
  finalized node whose count reaches 0 get the next labels in the order of their
  priorities and become ready: nodes 1 and 2 should get count 0, labels 2 and 3 and
  lifecycle 0. The code sets node 0 to done and raises TypeError at
  \<^verbatim>\<open>for ind in neigh.reverse()\<close>; nodes 1 and 2 keep count 1, label \<open>-1\<close> and lifecycle
  \<open>-1\<close>.
\<close>

theorem iter_Kahn_diamond_no_propagation: "iter_Kahn diamond diamond_ready (to_numpy_matrix diamond) = (Inl TypeError,
     [\<lparr>remaining = 0, label = 1, lifecycle = 1\<rparr>,
      \<lparr>remaining = 1, label = - 1, lifecycle = - 1\<rparr>,
      \<lparr>remaining = 1, label = - 1, lifecycle = - 1\<rparr>,
      \<lparr>remaining = 2, label = - 1, lifecycle = - 1\<rparr>])"
  by code_simp

text \<open>
  Claim C7, on the chain with node 0 ready. The claim is that the step decrements the
  count of every blocked dependent of the finalized node by one: node 1 should go from
  1 to 0. The code raises TypeError before the first decrement and the counts stay
  \<open>[0, 1, 1]\<close>.
\<close>

theorem iter_Kahn_chain_no_decrement:
  "map remaining (snd (iter_Kahn chain3 chain_ready (to_numpy_matrix chain3))) = [0, 1, 1] \<and>
   fst (iter_Kahn chain3 chain_ready (to_numpy_matrix chain3)) = Inl TypeError"
  by code_simp

text \<open>
  Claim C6 as stated fails on the cycle \<open>0 \<rightarrow> 1 \<rightarrow> 0\<close>: no node is ready and both are
  blocked, and \<^verbatim>\<open>run\<close> raises AssertionError instead of returning a history and the
  labels.
\<close>

theorem run_cycle2_raises: "run cycle2 = Some (Inl AssertionError)"
  by code_simp

text \<open>
  Claim C6, amended. On a non-empty array without ready entry: when some label is 0
  or more, the array that \<^verbatim>\<open>iter_Kahn\<close> leaves is the given one with every lifecycle
  set to done, the labels and counts as they were; when every label is negative, the
  assertion \<^verbatim>\<open>next_label >= 1\<close> fails, the array is untouched, and the loop of
  \<^verbatim>\<open>run\<close> entered on such an array ends with AssertionError.
\<close>

theorem iter_Kahn_no_ready_entry:
  assumes ne: "x \<noteq> []" and stuck: "\<forall>e \<in> set x. lifecycle e \<noteq> 0"
  shows "((\<exists>e \<in> set x. 0 \<le> label e) \<longrightarrow> snd (iter_Kahn g x E) = force_done x) \<and>
         ((\<forall>e \<in> set x. label e < 0) \<longrightarrow>
            iter_Kahn g x E = (Inl AssertionError, x) \<and>
            ((\<exists>e \<in> set x. lifecycle e < 1) \<longrightarrow> run_loop g E x h = Some (Inl AssertionError)))"
proof (intro conjI impI)
  assume pass: "\<exists>e \<in> set x. 0 \<le> label e"
  obtain m where m: "amax (map label x) = Inr m" "0 \<le> m"
    using amax_labels_nonneg[OF pass] by blast
  have f: "forced x = force_done x" using stuck by (simp add: forced_def count_ready_0)
  have "ready_labels (forced x) \<noteq> []" using ne length_forced[of x] by (auto simp: ready_labels_def)
  from argmin_spec[OF this] obtain k where k: "argmin (ready_labels (forced x)) = Inr k" by blast
  show "snd (iter_Kahn g x E) = force_done x"
    using iter_Kahn_pass[OF m k, of g E] f by (simp add: force_done_idem)
next
  assume "\<forall>e \<in> set x. label e < 0"
  then show "iter_Kahn g x E = (Inl AssertionError, x)" using ne by (intro iter_Kahn_assert)
next
  assume "\<forall>e \<in> set x. label e < 0" "\<exists>e \<in> set x. lifecycle e < 1"
  then show "run_loop g E x h = Some (Inl AssertionError)" using ne by (intro run_loop_assert)
qed

text \<open>
  Claim C6, amended, on node 0 done with nodes 1 and 2 in a cycle, and on the array
  that \<^verbatim>\<open>initialize_x\<close> gives for the cycle of two nodes.
\<close>

theorem iter_Kahn_no_ready_entry_witness:
  "snd (iter_Kahn tail_cycle stuck3 (to_numpy_matrix tail_cycle)) = force_done stuck3 \<and>
   iter_Kahn cycle2 (unlabelled cycle2) (to_numpy_matrix cycle2) = (Inl AssertionError, unlabelled cycle2) \<and>
   run_loop cycle2 (to_numpy_matrix cycle2) (unlabelled cycle2) [unlabelled cycle2] = Some (Inl AssertionError)"
proof -
  have 1: "stuck3 \<noteq> []" "\<forall>e \<in> set stuck3. lifecycle e \<noteq> 0" "\<exists>e \<in> set stuck3. 0 \<le> label e"
    by (simp_all add: stuck3_def)
  have n: "0 < nb_nodes cycle2" by (simp add: cycle2_def)
  have 2: "unlabelled cycle2 \<noteq> []" using unlabelled_nonempty[OF n] .
  have 3: "\<forall>e \<in> set (unlabelled cycle2). lifecycle e \<noteq> 0" "\<forall>e \<in> set (unlabelled cycle2). label e < 0"
    using unlabelled_entries[of cycle2] by auto
  have 4: "\<exists>e \<in> set (unlabelled cycle2). lifecycle e < 1"
    using 2 unlabelled_entries[of cycle2] by (cases "unlabelled cycle2") auto
  show ?thesis
    using iter_Kahn_no_ready_entry[OF 1(1,2), of tail_cycle "to_numpy_matrix tail_cycle"] 1(3)
      iter_Kahn_no_ready_entry[OF 2 3(1), of cycle2 "to_numpy_matrix cycle2" "[unlabelled cycle2]"] 3(2) 4
    by blast
qed

text \<open>
  Claim C10 as stated fails on the single node that is already done: the assertion
  passes, TypeError is raised, and the array is what it was before the call.
\<close>

theorem iter_Kahn_all_done_unchanged:
  "iter_Kahn single_node single_done (to_numpy_matrix single_node) = (Inl TypeError, single_done)"
  by code_simp

text \<open>
  Claim C10, amended. When the assertion passes and \<^verbatim>\<open>E\<close> has a row for every row
  of \<^verbatim>\<open>x\<close>, the call raises TypeError; the array it leaves has the lifecycle of the
  selected node \<open>k\<close> set to done; and that array equals the one given exactly when every
  entry was done before the call.
\<close>

theorem iter_Kahn_TypeError_after_write:
  assumes pass: "\<exists>e \<in> set x. 0 \<le> label e"
    and rows: "length x \<le> length E"
  shows "\<exists>k<length x. argmin (ready_labels (forced x)) = Inr k \<and>
           iter_Kahn g x E = (Inl TypeError, (forced x)[k := (forced x ! k)\<lparr>lifecycle := 1\<rparr>]) \<and>
           lifecycle (snd (iter_Kahn g x E) ! k) = 1 \<and>
           (snd (iter_Kahn g x E) = x \<longleftrightarrow> (\<forall>e \<in> set x. lifecycle e = 1))"
proof -
  obtain m where m: "amax (map label x) = Inr m" "0 \<le> m"
    using amax_labels_nonneg[OF pass] by blast
  have ne: "x \<noteq> []" using pass by auto
  then have "ready_labels (forced x) \<noteq> []" using length_forced[of x] by (auto simp: ready_labels_def)
  from argmin_spec[OF this] obtain k where k: "k < length x" "argmin (ready_labels (forced x)) = Inr k"
    "\<forall>j<length (ready_labels (forced x)). \<not> ext_less (ready_labels (forced x) ! j) (ready_labels (forced x) ! k)"
    by (auto simp: ready_labels_def length_forced)
  let ?x2 = "(forced x)[k := (forced x ! k)\<lparr>lifecycle := 1\<rparr>]"
  have v: "iter_Kahn g x E = (Inl TypeError, ?x2)"
    using iter_Kahn_pass[OF m k(2), of g E] k(1) rows by simp
  have d: "lifecycle (?x2 ! k) = 1" using k(1) by (simp add: length_forced)
  have "?x2 = x \<longleftrightarrow> (\<forall>e \<in> set x. lifecycle e = 1)"
  proof
    assume eq: "?x2 = x"
    show "\<forall>e \<in> set x. lifecycle e = 1"
    proof (cases "count_ready x = 0")
      case True
      then have "?x2 = force_done x" by (simp add: forced_def force_done_idem)
      then have "x = force_done x" using eq by simp
      then show ?thesis using force_done_lifecycle by metis
    next
      case False
      then have f: "forced x = x" by (simp add: forced_def)
      obtain i where i: "i < length x" "lifecycle (x ! i) = 0"
        using False by (auto simp: count_ready_0 in_set_conv_nth)
      have "lifecycle (x ! k) = 0" using selected_ready[OF i k(1)] k(3) f by simp
      moreover have "lifecycle (x ! k) = 1" using d eq by simp
      ultimately show ?thesis by simp
    qed
  next
    assume a: "\<forall>e \<in> set x. lifecycle e = 1"
    then have "count_ready x = 0" by (simp add: count_ready_0)
    then have "?x2 = force_done x" by (simp add: forced_def force_done_idem)
    then show "?x2 = x" using force_done_fixed[OF a] by simp
  qed
  then show ?thesis using k(1,2) v d by auto
qed

text \<open>
  Claim C10, amended, on the chain with node 0 ready: the array is left changed.
\<close>

theorem iter_Kahn_TypeError_after_write_witness:
  "iter_Kahn chain3 chain_ready (to_numpy_matrix chain3) =
     (Inl TypeError, chain_ready[0 := (chain_ready ! 0)\<lparr>lifecycle := 1\<rparr>]) \<and>
   snd (iter_Kahn chain3 chain_ready (to_numpy_matrix chain3)) \<noteq> chain_ready"
proof -
  have p: "\<exists>e \<in> set chain_ready. 0 \<le> label e" by (simp add: chain_ready_def)
  have r: "length chain_ready \<le> length (to_numpy_matrix chain3)"
    by (simp add: chain_ready_def to_numpy_matrix_def chain3_def)
  from iter_Kahn_TypeError_after_write[OF p r, of chain3] obtain k where k: "k < length chain_ready"
     "argmin (ready_labels (forced chain_ready)) = Inr k"
     "iter_Kahn chain3 chain_ready (to_numpy_matrix chain3) =
        (Inl TypeError, (forced chain_ready)[k := (forced chain_ready ! k)\<lparr>lifecycle := 1\<rparr>])"
     "snd (iter_Kahn chain3 chain_ready (to_numpy_matrix chain3)) = chain_ready \<longleftrightarrow>
        (\<forall>e \<in> set chain_ready. lifecycle e = 1)"
    by blast
  have f: "forced chain_ready = chain_ready" by (simp add: forced_def count_ready_def chain_ready_def)
  have "argmin (ready_labels chain_ready) = Inr 0"
    by (simp add: argmin_def ready_labels_def chain_ready_def)
  then have "k = 0" using k(2) f by simp
  moreover have "\<not> (\<forall>e \<in> set chain_ready. lifecycle e = 1)" by (simp add: chain_ready_def)
  ultimately show ?thesis using k(3,4) f by simp
qed

end
